theory Spec2Isabelle
  imports Complex_Main "HOL-Library.Log_Nat" "HOL-Library.Word"
begin

section \<open>Python values used by the program\<close>

text \<open>
  The exceptions that the modelled code can meet. \<open>OSError\<close> stands for the class with
  its subclasses, as an \<^verbatim>\<open>except OSError\<close> clause reads it.
\<close>

datatype exn =
  ZeroDivisionError | ValueError | IndexError | OSError | AttributeError | KeyboardInterrupt

text \<open>What a call into the operating system or a library does: it returns or it raises.\<close>

datatype 'a outcome = Returns 'a | Raises exn

subsection \<open>Binary64 floating point\<close>

text \<open>
  A Python \<^verbatim>\<open>float\<close> is an IEEE 754 binary64 number. A finite float is modelled by the
  rational it denotes, and every arithmetic operation rounds its exact result to the
  nearest number with a 53 bit significand, ties to the even significand (\<open>fl\<close>). The
  exponent range is not bounded: the model describes the code for magnitudes between
  \<open>2 ^ -1022\<close> and \<open>2 ^ 1023\<close>, where binary64 neither overflows nor goes subnormal;
  \<^verbatim>\<open>nan\<close> and the infinities are outside it, and so is the \<^verbatim>\<open>OverflowError\<close> that
  Python raises when an integer or a quotient of integers is too large for a float.
  The theorems about sizes therefore bound the sizes they speak of by \<open>2 ^ 32\<close>, which
  keeps every intermediate value far inside that range.

  \<open>fl_exp x\<close> is the exponent \<open>e\<close> with \<open>2 ^ e \<le> \<bar>x\<bar> < 2 ^ (e + 1)\<close>, computed from the
  bit lengths of numerator and denominator.
\<close>

definition fl_exp :: "rat \<Rightarrow> int" where
  "fl_exp x =
     (let (p, q) = quotient_of \<bar>x\<bar>;
          d = bitlen p - bitlen q
      in if power_int 2 d \<le> \<bar>x\<bar> then d else d - 1)"

text \<open>Rounding to the nearest integer, ties to even.\<close>

definition rne :: "rat \<Rightarrow> int" where
  "rne q =
     (let f = \<lfloor>q\<rfloor>; r = q - of_int f
      in if r < 1 / 2 then f
         else if 1 / 2 < r then f + 1
         else if even f then f else f + 1)"

definition fl :: "rat \<Rightarrow> rat" where
  "fl x =
     (if x = 0 then 0
      else let u = power_int 2 (fl_exp x - 52) in of_int (rne (x / u)) * u)"

text \<open>The numbers a binary64 value can denote (exponent range aside).\<close>

definition representable :: "rat \<Rightarrow> bool" where
  "representable y \<longleftrightarrow> (\<exists>m k. \<bar>m\<bar> < 2 ^ 53 \<and> y = of_int m * power_int 2 k)"

text \<open>
  The operations of the source: \<^verbatim>\<open>int * float\<close> converts the integer first
  (\<open>float_of_int\<close>), \<^verbatim>\<open>int / int\<close> is the correctly rounded quotient, a division by zero
  raises, and \<^verbatim>\<open>int(x)\<close> truncates towards zero. They stand for the source's operations
  on integers below \<open>2 ^ 1023\<close> only: beyond the range of binary64 the conversion and
  the quotient raise \<^verbatim>\<open>OverflowError\<close>, which is not modelled.
\<close>

definition float_of_int :: "int \<Rightarrow> rat" where
  "float_of_int n = fl (of_int n)"

definition fmul :: "rat \<Rightarrow> rat \<Rightarrow> rat" where
  "fmul a b = fl (a * b)"

definition fadd :: "rat \<Rightarrow> rat \<Rightarrow> rat" where
  "fadd a b = fl (a + b)"

definition fdiv :: "rat \<Rightarrow> rat \<Rightarrow> exn + rat" where
  "fdiv a b = (if b = 0 then Inl ZeroDivisionError else Inr (fl (a / b)))"

definition int_truediv :: "int \<Rightarrow> int \<Rightarrow> exn + rat" where
  "int_truediv a b = (if b = 0 then Inl ZeroDivisionError else Inr (fl (of_int a / of_int b)))"

definition py_int :: "rat \<Rightarrow> int" where
  "py_int x = (if 0 \<le> x then \<lfloor>x\<rfloor> else \<lceil>x\<rceil>)"

text \<open>The float literals of the source: the binary64 numbers nearest to the decimals.\<close>

definition lit_0_5 :: rat where
  "lit_0_5 = fl (1 / 2)"

definition lit_0_7 :: rat where
  "lit_0_7 = fl (7 / 10)"

definition lit_0_9 :: rat where
  "lit_0_9 = fl (9 / 10)"

subsection \<open>Sequences and strings\<close>

text \<open>\<^verbatim>\<open>xs[i]\<close>: a negative index counts from the end, an index out of range raises.\<close>

definition py_index :: "'a list \<Rightarrow> int \<Rightarrow> exn + 'a" where
  "py_index xs i =
     (if 0 \<le> i \<and> i < int (length xs) then Inr (xs ! nat i)
      else if i < 0 \<and> - int (length xs) \<le> i then Inr (xs ! nat (int (length xs) + i))
      else Inl IndexError)"

text \<open>\<^verbatim>\<open>xs[:m]\<close>: a negative bound counts from the end.\<close>

definition py_slice_to :: "int \<Rightarrow> 'a list \<Rightarrow> 'a list" where
  "py_slice_to m xs =
     (if 0 \<le> m then take (nat m) xs else take (nat (int (length xs) + m)) xs)"

definition newline :: char where
  "newline = CHR 0x0A"

text \<open>\<^verbatim>\<open>s.split('\n')\<close> and \<^verbatim>\<open>'\n'.join(lines)\<close>.\<close>

fun split_nl :: "string \<Rightarrow> string list" where
  "split_nl [] = [[]]"
| "split_nl (c # cs) =
     (if c = newline then [] # split_nl cs
      else (case split_nl cs of [] \<Rightarrow> [[c]] | l # ls \<Rightarrow> (c # l) # ls))"

fun join_nl :: "string list \<Rightarrow> string" where
  "join_nl [] = []"
| "join_nl [l] = l"
| "join_nl (l # ls) = l @ newline # join_nl ls"

text \<open>A loop body that may raise, run over a list: the first exception ends it.\<close>

fun map_exn :: "('a \<Rightarrow> exn + 'b) \<Rightarrow> 'a list \<Rightarrow> exn + 'b list" where
  "map_exn f [] = Inr []"
| "map_exn f (x # xs) =
     (case f x of
        Inl e \<Rightarrow> Inl e
      | Inr y \<Rightarrow> (case map_exn f xs of Inl e \<Rightarrow> Inl e | Inr ys \<Rightarrow> Inr (y # ys)))"

section \<open>The converter (converter.py)\<close>

record converter =
  charset :: string
  contrast :: rat

definition DEFAULT_CHARSET :: string where
  "DEFAULT_CHARSET = '' .:-=+*#%@''"

text \<open>
  \<^verbatim>\<open>AsciiConverter.__init__\<close>: \<^verbatim>\<open>charset or self.DEFAULT_CHARSET\<close> takes the default for
  \<^verbatim>\<open>None\<close> and for the empty string, the two falsy values a string argument can have.
\<close>

definition init_converter :: "string option \<Rightarrow> rat \<Rightarrow> converter" where
  "init_converter cs k =
     \<lparr>charset = (case cs of None \<Rightarrow> DEFAULT_CHARSET
                  | Some s \<Rightarrow> if s = [] then DEFAULT_CHARSET else s),
      contrast = k\<rparr>"

text \<open>
  An element of the array \<^verbatim>\<open>pixels\<close>: a \<^verbatim>\<open>uint8\<close> sample of the grayscale image, or a
  \<^verbatim>\<open>float64\<close> once the contrast step has run.
\<close>

datatype gray = U8 "8 word" | F64 rat

fun gray_value :: "gray \<Rightarrow> rat" where
  "gray_value (U8 p) = of_nat (unat p)"
| "gray_value (F64 v) = v"

text \<open>\<^verbatim>\<open>np.clip(a, lo, hi)\<close> on one element.\<close>

definition np_clip :: "rat \<Rightarrow> rat \<Rightarrow> rat \<Rightarrow> rat" where
  "np_clip a lo hi = min (max a lo) hi"

text \<open>
  The contrast step (lines 54 to 56 and 104 to 106), on one sample. \<^verbatim>\<open>pixels - 128\<close>
  subtracts in the array's own type \<^verbatim>\<open>uint8\<close>, where the difference wraps modulo 256;
  the product with the float \<^verbatim>\<open>self.contrast\<close> and the sum are \<^verbatim>\<open>float64\<close>.
\<close>

definition adjust_contrast :: "rat \<Rightarrow> 8 word \<Rightarrow> gray" where
  "adjust_contrast k p =
     (if k \<noteq> 1
      then F64 (np_clip (fadd (fmul (float_of_int (uint (p - 128))) k) (float_of_int 128)) 0 255)
      else U8 p)"

text \<open>
  \<^verbatim>\<open>_pixel_to_char\<close>, lines 75 and 76: the index into the ramp. \<^verbatim>\<open>gray_value / 256\<close> is a
  \<^verbatim>\<open>float64\<close> division for either kind of sample (for a \<^verbatim>\<open>uint8\<close> sample under the
  value-based casting of NumPy 1, where the integer 256 does not have to fit the type of
  the sample), and the product with \<^verbatim>\<open>len(self.charset)\<close> converts the length first.
\<close>

definition char_index :: "converter \<Rightarrow> gray \<Rightarrow> int" where
  "char_index conv g =
     (let n = int (length (charset conv));
          i = py_int (fmul (fl (gray_value g / 256)) (float_of_int n))
      in min i (n - 1))"

definition pixel_to_char :: "converter \<Rightarrow> gray \<Rightarrow> exn + char" where
  "pixel_to_char conv g = py_index (charset conv) (char_index conv g)"

text \<open>
  The image handed to the converter, after \<^verbatim>\<open>Image.fromarray\<close>: its size, and what the
  imaging library's \<^verbatim>\<open>resize((w, h), LANCZOS).convert('L')\<close> yields for a target size,
  as rows of \<^verbatim>\<open>uint8\<close> samples. The resampling filter is the library's and is not
  modelled further.
\<close>

record image =
  img_width :: nat
  img_height :: nat
  luma_grid :: "nat \<Rightarrow> nat \<Rightarrow> 8 word list list"

text \<open>
  An image of one luminance everywhere, for the examples: resampling it gives that
  luminance at every size.
\<close>

definition uniform_image :: "nat \<Rightarrow> nat \<Rightarrow> 8 word \<Rightarrow> image" where
  "uniform_image w h v =
     \<lparr>img_width = w, img_height = h, luma_grid = (\<lambda>tw th. replicate th (replicate tw v))\<rparr>"

text \<open>Lines 41 and 42 (and 93, 94): the height of the character grid.\<close>

definition target_height :: "int \<Rightarrow> nat \<Rightarrow> nat \<Rightarrow> exn + int" where
  "target_height width w h =
     (case int_truediv (int h) (int w) of
        Inl e \<Rightarrow> Inl e
      | Inr aspect_ratio \<Rightarrow>
          Inr (py_int (fmul (fmul (float_of_int width) aspect_ratio) lit_0_5)))"

text \<open>
  The imaging library's \<^verbatim>\<open>resize\<close> returns a copy of the image, with no check, when the
  target size is the image's own size. Otherwise it rejects a target size with a side
  below 1 (\<^verbatim>\<open>ValueError: height and width must be > 0\<close>). The source itself checks
  nothing.
\<close>

definition resize_gray :: "image \<Rightarrow> int \<Rightarrow> int \<Rightarrow> exn + 8 word list list" where
  "resize_gray img width height =
     (if width = int (img_width img) \<and> height = int (img_height img)
      then Inr (luma_grid img (nat width) (nat height))
      else if width < 1 \<or> height < 1 then Inl ValueError
      else Inr (luma_grid img (nat width) (nat height)))"

definition convert_frame :: "converter \<Rightarrow> image \<Rightarrow> int \<Rightarrow> exn + string" where
  "convert_frame conv img width =
     (case target_height width (img_width img) (img_height img) of
        Inl e \<Rightarrow> Inl e
      | Inr height \<Rightarrow>
          (case resize_gray img width height of
             Inl e \<Rightarrow> Inl e
           | Inr pixels \<Rightarrow>
               (case map_exn (\<lambda>row. map_exn (\<lambda>pixel.
                        pixel_to_char conv (adjust_contrast (contrast conv) pixel)) row) pixels of
                  Inl e \<Rightarrow> Inl e
                | Inr ascii_lines \<Rightarrow> Inr (join_nl ascii_lines))))"

section \<open>The terminal player (player.py)\<close>

record player =
  terminal_width :: int
  terminal_height :: int

text \<open>
  What one run of \<^verbatim>\<open>_update_terminal_size\<close> finds outside the program:
  the result \<open>(columns, lines)\<close> of \<^verbatim>\<open>shutil.get_terminal_size(fallback=(80, 24))\<close>, and
  the words \<^verbatim>\<open>popen(...).read().split()\<close> yields for \<^verbatim>\<open>stty size\<close> and for
  \<^verbatim>\<open>tput lines && tput cols\<close>. A word is given by what \<^verbatim>\<open>int(word)\<close> does with it:
  \<open>Some n\<close>, or \<open>None\<close> when it raises \<^verbatim>\<open>ValueError\<close>.
\<close>

record probe =
  shutil_size :: "(int \<times> int) outcome"
  stty_words :: "int option list outcome"
  tput_words :: "int option list outcome"

text \<open>
  One of the two inner \<^verbatim>\<open>try\<close> blocks of \<^verbatim>\<open>get_size\<close> (lines 45 to 51 and 54 to 59):
  two words that both parse give \<open>(rows, columns)\<close>; anything raised inside is caught by the
  bare \<^verbatim>\<open>except\<close>, whatever it is.
\<close>

definition read_size :: "int option list outcome \<Rightarrow> (int \<times> int) option" where
  "read_size out =
     (case out of
        Raises e \<Rightarrow> None
      | Returns ws \<Rightarrow>
          (if length ws = 2
           then (case (ws ! 0, ws ! 1) of
                   (Some a, Some b) \<Rightarrow> Some (a, b)
                 | _ \<Rightarrow> None)
           else None))"

definition get_size :: "probe \<Rightarrow> (int \<times> int) option" where
  "get_size env =
     (case read_size (stty_words env) of
        Some r \<Rightarrow> Some r
      | None \<Rightarrow> read_size (tput_words env))"

text \<open>
  \<^verbatim>\<open>_update_terminal_size\<close> (lines 28 to 67). The first \<^verbatim>\<open>try\<close> catches
  \<^verbatim>\<open>AttributeError\<close> and \<^verbatim>\<open>OSError\<close> only; every other exception leaves the method.
  The second block runs in every call.
\<close>

definition update_terminal_size :: "player \<Rightarrow> probe \<Rightarrow> exn + player" where
  "update_terminal_size p env =
     (case (case shutil_size env of
              Returns (columns, lines) \<Rightarrow>
                Inr (p\<lparr>terminal_width := columns, terminal_height := lines\<rparr>)
            | Raises e \<Rightarrow> if e = AttributeError \<or> e = OSError then Inr p else Inl e) of
        Inl e \<Rightarrow> Inl e
      | Inr p1 \<Rightarrow>
          (case get_size env of
             Some (h, w) \<Rightarrow> Inr (p1\<lparr>terminal_height := h, terminal_width := w\<rparr>)
           | None \<Rightarrow> Inr p1))"

text \<open>\<^verbatim>\<open>__init__\<close> (lines 24 to 26): 80 by 24, then the first update.\<close>

definition init_player :: "probe \<Rightarrow> exn + player" where
  "init_player env = update_terminal_size \<lparr>terminal_width = 80, terminal_height = 24\<rparr> env"

text \<open>Lines 99 to 118 of \<^verbatim>\<open>calculate_frame_size\<close>, after the update.\<close>

definition frame_size :: "int \<Rightarrow> int \<Rightarrow> int \<Rightarrow> int \<Rightarrow> exn + int \<times> int" where
  "frame_size tw th video_width video_height =
     (let width = py_int (fmul (float_of_int tw) lit_0_7)
      in case int_truediv video_height video_width of
           Inl e \<Rightarrow> Inl e
         | Inr aspect_ratio \<Rightarrow>
             (let height = py_int (fmul (fmul (float_of_int width) aspect_ratio) lit_0_5);
                  max_height = py_int (fmul (float_of_int th) lit_0_9)
              in if height > max_height
                 then (case fdiv (float_of_int max_height) (fmul aspect_ratio lit_0_5) of
                         Inl e \<Rightarrow> Inl e
                       | Inr w \<Rightarrow> Inr (max (py_int w) 20, max max_height 10))
                 else Inr (max width 20, max height 10)))"

definition calculate_frame_size ::
  "player \<Rightarrow> probe \<Rightarrow> int \<Rightarrow> int \<Rightarrow> exn + player \<times> int \<times> int" where
  "calculate_frame_size p env video_width video_height =
     (case update_terminal_size p env of
        Inl e \<Rightarrow> Inl e
      | Inr p1 \<Rightarrow>
          (case frame_size (terminal_width p1) (terminal_height p1) video_width video_height of
             Inl e \<Rightarrow> Inl e
           | Inr wh \<Rightarrow> Inr (p1, wh)))"

text \<open>
  One pass of the loop of \<^verbatim>\<open>play\<close> meets the outside three times: the size probe inside
  \<^verbatim>\<open>render_frame\<close>, the writes to standard output with their flush, and
  \<^verbatim>\<open>time.sleep\<close>.
\<close>

record pass_env =
  size_probe :: probe
  stdout_result :: "unit outcome"
  sleep_result :: "unit outcome"

text \<open>
  \<^verbatim>\<open>render_frame\<close> (lines 135 to 156). The result holds the lines put on the screen.
\<close>

definition render_frame ::
  "player \<Rightarrow> string \<Rightarrow> int option \<Rightarrow> pass_env \<Rightarrow> exn + player \<times> string list" where
  "render_frame p frame max_lines env =
     (case update_terminal_size p (size_probe env) of
        Inl e \<Rightarrow> Inl e
      | Inr p1 \<Rightarrow>
          (let m = (case max_lines of None \<Rightarrow> terminal_height p1 - 1 | Some k \<Rightarrow> k);
               lines = split_nl frame;
               shown = (if int (length lines) > m then py_slice_to m lines else lines)
           in case stdout_result env of
                Raises e \<Rightarrow> Inl e
              | Returns u \<Rightarrow> Inr (p1, shown)))"

text \<open>
  How \<^verbatim>\<open>play\<close> ends: the sequence ran out, the \<^verbatim>\<open>except KeyboardInterrupt\<close> clause of
  line 190 caught the interrupt, an exception left the method, or there was no frame.
\<close>

datatype play_end = Finished | Stopped_by_user | Propagated exn | No_frames

definition leave_loop :: "exn \<Rightarrow> play_end" where
  "leave_loop e = (if e = KeyboardInterrupt then Stopped_by_user else Propagated e)"

text \<open>
  The loop of lines 176 to 188, one pass for each element of the list of environments;
  \<open>None\<close> when the list ends before the loop does. The screens drawn so far are
  collected in \<open>screens\<close>.
\<close>

fun play_loop ::
  "player \<Rightarrow> string list \<Rightarrow> bool \<Rightarrow> int \<Rightarrow> nat \<Rightarrow> pass_env list \<Rightarrow> string list list
    \<Rightarrow> (play_end \<times> string list list) option" where
  "play_loop p frames loop max_lines frame_index [] screens = None"
| "play_loop p frames loop max_lines frame_index (env # envs) screens =
     (if \<not> frame_index < length frames then Some (Propagated IndexError, screens)
      else case render_frame p (frames ! frame_index) (Some max_lines) env of
             Inl e \<Rightarrow> Some (leave_loop e, screens)
           | Inr (p1, shown) \<Rightarrow>
               (case sleep_result env of
                  Raises e \<Rightarrow> Some (leave_loop e, screens @ [shown])
                | Returns u \<Rightarrow>
                    (if frame_index + 1 \<ge> length frames
                     then (if loop then play_loop p1 frames loop max_lines 0 envs (screens @ [shown])
                           else Some (Finished, screens @ [shown]))
                     else play_loop p1 frames loop max_lines (frame_index + 1) envs
                            (screens @ [shown]))))"

text \<open>
  \<^verbatim>\<open>play\<close> (lines 158 to 191). The update of line 171 stands before the \<^verbatim>\<open>try\<close>, and
  \<open>max_lines\<close> is computed once, from its result.
\<close>

definition play ::
  "player \<Rightarrow> string list \<Rightarrow> bool \<Rightarrow> probe \<Rightarrow> pass_env list
    \<Rightarrow> (play_end \<times> string list list) option" where
  "play p frames loop first_probe envs =
     (if length frames = 0 then Some (No_frames, [])
      else case update_terminal_size p first_probe of
             Inl e \<Rightarrow> Some (Propagated e, [])
           | Inr p1 \<Rightarrow> play_loop p1 frames loop (terminal_height p1 - 1) 0 envs [])"

text \<open>
  For the examples: a terminal whose size only the direct query reports (both commands
  fail), and a pass of the loop in which the output and the sleep go through.
\<close>

definition terminal_of :: "int \<Rightarrow> int \<Rightarrow> probe" where
  "terminal_of columns rows =
     \<lparr>shutil_size = Returns (columns, rows), stty_words = Raises OSError,
      tput_words = Raises OSError\<rparr>"

definition quiet_pass :: "probe \<Rightarrow> pass_env" where
  "quiet_pass env = \<lparr>size_probe = env, stdout_result = Returns (), sleep_result = Returns ()\<rparr>"

section \<open>Properties of the rounding\<close>

subsection \<open>Rounding to the nearest integer\<close>

lemma rne_cases: "rne q = \<lfloor>q\<rfloor> \<or> rne q = \<lfloor>q\<rfloor> + 1"
  by (simp add: rne_def Let_def)

lemma rne_of_int: "rne (of_int n) = n"
  by (simp add: rne_def)

lemma rne_dist: "\<bar>of_int (rne q) - q\<bar> \<le> 1 / 2"
  unfolding rne_def Let_def by (auto simp: abs_if) linarith+

lemma rne_nearest: "\<bar>of_int (rne q) - q\<bar> \<le> \<bar>of_int j - q\<bar>"
proof (cases "of_int j = q")
  case True
  then show ?thesis using rne_of_int [of j] by auto
next
  case False
  have "j \<le> \<lfloor>q\<rfloor> \<or> \<lfloor>q\<rfloor> + 1 \<le> j" by linarith
  then show ?thesis
  proof
    assume a: "j \<le> \<lfloor>q\<rfloor>"
    show ?thesis
    proof (cases "j = \<lfloor>q\<rfloor>")
      case True
      then have "\<bar>of_int j - q\<bar> = q - of_int \<lfloor>q\<rfloor>" by simp
      then show ?thesis unfolding rne_def Let_def by (auto simp: abs_if; linarith)
    next
      case F: False
      with a have "j \<le> \<lfloor>q\<rfloor> - 1" by simp
      then have "(of_int j :: rat) \<le> of_int \<lfloor>q\<rfloor> - 1"
        by (metis of_int_1 of_int_diff of_int_le_iff)
      then have "\<bar>of_int j - q\<bar> \<ge> 1" by linarith
      with rne_dist [of q] show ?thesis by linarith
    qed
  next
    assume a: "\<lfloor>q\<rfloor> + 1 \<le> j"
    show ?thesis
    proof (cases "j = \<lfloor>q\<rfloor> + 1")
      case True
      then have "\<bar>of_int j - q\<bar> = of_int \<lfloor>q\<rfloor> + 1 - q" by simp linarith
      then show ?thesis unfolding rne_def Let_def by (auto simp: abs_if; linarith)
    next
      case F: False
      with a have "\<lfloor>q\<rfloor> + 2 \<le> j" by simp
      then have "(of_int j :: rat) \<ge> of_int \<lfloor>q\<rfloor> + 2"
        by (metis of_int_numeral of_int_add of_int_le_iff)
      then have "\<bar>of_int j - q\<bar> \<ge> 1" by linarith
      with rne_dist [of q] show ?thesis by linarith
    qed
  qed
qed

lemma rne_ge: "of_int j \<le> q \<Longrightarrow> j \<le> rne q"
proof -
  assume "of_int j \<le> q"
  then have "j \<le> \<lfloor>q\<rfloor>" by (simp add: le_floor_iff)
  then show ?thesis using rne_cases [of q] by auto
qed

lemma rne_le: "q \<le> of_int j \<Longrightarrow> rne q \<le> j"
proof (cases "q = of_int j")
  case True
  then show ?thesis by (simp add: rne_of_int)
next
  case False
  assume "q \<le> of_int j"
  with False have "q < of_int j" by simp
  then have "\<lfloor>q\<rfloor> < j" by (simp add: floor_less_iff)
  then show ?thesis using rne_cases [of q] by auto
qed

subsection \<open>The exponent\<close>

lemma quotient_pos:
  assumes "0 < a" and "quotient_of a = (p, q)"
  shows "0 < p" and "0 < q" and "a = of_int p / of_int q"
proof -
  show q: "0 < q" using assms(2) by (rule quotient_of_denom_pos)
  show a: "a = of_int p / of_int q" using assms(2) by (simp add: quotient_of_div)
  show "0 < p"
  proof (rule ccontr)
    assume "\<not> 0 < p"
    then have "(of_int p :: rat) \<le> 0" by simp
    with q have "(of_int p :: rat) / of_int q \<le> 0" by (simp add: divide_nonpos_pos)
    with a assms(1) show False by simp
  qed
qed

lemma floorlog2_int:
  assumes "0 < p"
  shows "(2::rat) ^ (floorlog 2 (nat p) - 1) \<le> of_int p" and "of_int p < (2::rat) ^ floorlog 2 (nat p)"
proof -
  from assms have "0 < nat p" by simp
  from floorlog_bounds [OF this, of 2]
  have b: "2 ^ (floorlog 2 (nat p) - 1) \<le> nat p" "nat p < 2 ^ floorlog 2 (nat p)" by simp_all
  have "(of_nat (2 ^ (floorlog 2 (nat p) - 1)) :: rat) \<le> of_nat (nat p)"
    using b(1) of_nat_le_iff by blast
  then show "(2::rat) ^ (floorlog 2 (nat p) - 1) \<le> of_int p" using assms by simp
  have "(of_nat (nat p) :: rat) < of_nat (2 ^ floorlog 2 (nat p))"
    using b(2) of_nat_less_iff by blast
  then show "of_int p < (2::rat) ^ floorlog 2 (nat p)" using assms by simp
qed

lemma fl_exp_bounds:
  assumes "x \<noteq> 0"
  shows "power_int 2 (fl_exp x) \<le> \<bar>x\<bar>" and "\<bar>x\<bar> < power_int 2 (fl_exp x + 1)"
proof -
  obtain p q where pq: "quotient_of \<bar>x\<bar> = (p, q)" by (cases "quotient_of \<bar>x\<bar>")
  from assms have a: "0 < \<bar>x\<bar>" by simp
  note Q = quotient_pos [OF a pq]
  define bp where "bp = floorlog 2 (nat p)"
  define bq where "bq = floorlog 2 (nat q)"
  define d where "d = int bp - int bq"
  have e: "fl_exp x = (if power_int 2 d \<le> \<bar>x\<bar> then d else d - 1)"
    by (simp add: fl_exp_def pq d_def bp_def bq_def bitlen_def Let_def)
  have bp: "(2::rat) ^ (bp - 1) \<le> of_int p" "of_int p < (2::rat) ^ bp"
    using floorlog2_int [OF Q(1)] by (simp_all add: bp_def)
  have bq: "(2::rat) ^ (bq - 1) \<le> of_int q" "of_int q < (2::rat) ^ bq"
    using floorlog2_int [OF Q(2)] by (simp_all add: bq_def)
  have bp0: "0 < bp" using Q(1) by (simp add: bp_def floorlog_def)
  have bq0: "0 < bq" using Q(2) by (simp add: bq_def floorlog_def)
  have lo: "power_int 2 (d - 1) \<le> \<bar>x\<bar>"
  proof -
    have "d - 1 = int (bp - 1) - int bq" using bp0 by (simp add: d_def of_nat_diff)
    then have "power_int (2::rat) (d - 1) = 2 ^ (bp - 1) / 2 ^ bq"
      by (simp add: power_int_diff)
    also have "\<dots> \<le> of_int p / 2 ^ bq"
      using bp(1) by (simp add: divide_right_mono)
    also have "\<dots> \<le> of_int p / of_int q"
      using bq(2) Q(1,2) by (simp add: frac_le)
    finally show ?thesis using Q(3) by simp
  qed
  have hi: "\<bar>x\<bar> < power_int 2 (d + 1)"
  proof -
    have "d + 1 = int bp - int (bq - 1)" using bq0 by (simp add: d_def of_nat_diff)
    then have eq: "power_int (2::rat) (d + 1) = 2 ^ bp / 2 ^ (bq - 1)"
      by (simp add: power_int_diff)
    have "of_int p / of_int q < (2::rat) ^ bp / of_int q"
      using bp(2) Q(2) by (simp add: divide_strict_right_mono)
    also have "\<dots> \<le> 2 ^ bp / 2 ^ (bq - 1)"
      using bq(1) by (simp add: frac_le)
    finally show ?thesis using Q(3) eq by simp
  qed
  show "power_int 2 (fl_exp x) \<le> \<bar>x\<bar>" using lo by (simp add: e)
  show "\<bar>x\<bar> < power_int 2 (fl_exp x + 1)" using hi by (auto simp: e)
qed

subsection \<open>\<open>fl\<close> yields a nearest representable number\<close>

lemma abs_scale:
  fixes a x u :: rat
  assumes "0 < u"
  shows "\<bar>a - x / u\<bar> * u = \<bar>a * u - x\<bar>"
proof -
  have "(a - x / u) * u = a * u - x" using assms by (simp add: field_simps)
  then have "\<bar>a * u - x\<bar> = \<bar>a - x / u\<bar> * \<bar>u\<bar>" by (simp add: abs_mult [symmetric])
  then show ?thesis using assms by simp
qed

lemma fl_grid:
  assumes "x \<noteq> 0"
  shows "\<bar>fl x - x\<bar> \<le> \<bar>of_int j * power_int 2 (fl_exp x - 52) - x\<bar>"
proof -
  define u :: rat where "u = power_int 2 (fl_exp x - 52)"
  have u: "0 < u" by (simp add: u_def)
  have f: "fl x = of_int (rne (x / u)) * u" using assms by (simp add: fl_def u_def Let_def)
  have "\<bar>of_int (rne (x / u)) - x / u\<bar> * u \<le> \<bar>of_int j - x / u\<bar> * u"
    using rne_nearest [of "x / u" j] u by (simp add: mult_right_mono)
  then show ?thesis unfolding abs_scale [OF u] by (simp add: f u_def)
qed

lemma fl_nearest:
  assumes "representable y"
  shows "\<bar>fl x - x\<bar> \<le> \<bar>y - x\<bar>"
proof (cases "x = 0")
  case True
  then show ?thesis by (simp add: fl_def)
next
  case False
  from assms obtain m k where m: "\<bar>m\<bar> < 2 ^ 53" and y: "y = of_int m * power_int 2 k"
    by (auto simp: representable_def)
  define e where "e = fl_exp x"
  define u :: rat where "u = power_int 2 (e - 52)"
  have u: "0 < u" by (simp add: u_def)
  note G = fl_grid [OF False, folded e_def, folded u_def]
  show ?thesis
  proof (cases "e - 52 \<le> k")
    case True
    define j where "j = m * 2 ^ nat (k - (e - 52))"
    have "power_int (2::rat) k = power_int 2 ((k - (e - 52)) + (e - 52))"
      by simp
    also have "\<dots> = power_int 2 (k - (e - 52)) * u"
      unfolding u_def by (subst power_int_add) simp_all
    also have "power_int (2::rat) (k - (e - 52)) = 2 ^ nat (k - (e - 52))"
      using True by (simp add: power_int_def)
    finally have "y = of_int j * u" by (simp add: y j_def)
    then show ?thesis using G [of j] by simp
  next
    case F: False
    define B :: rat where "B = power_int 2 e"
    have Bu: "B = of_int (2 ^ 52) * u"
    proof -
      have "power_int (2::rat) e = power_int 2 (52 + (e - 52))" by simp
      also have "\<dots> = of_int (2 ^ 52) * u"
        unfolding u_def by (subst power_int_add) simp_all
      finally show ?thesis by (simp add: B_def)
    qed
    have nBu: "- B = of_int (- (2 ^ 52)) * u" using Bu by simp
    have ylt: "\<bar>y\<bar> < B"
    proof -
      have "k \<le> e - 53" using F by simp
      then have "power_int (2::rat) k \<le> power_int 2 (e - 53)"
        by (simp add: power_int_increasing)
      moreover have "(of_int \<bar>m\<bar> :: rat) < of_int (2 ^ 53)" using m of_int_less_iff by blast
      ultimately have "of_int \<bar>m\<bar> * power_int (2::rat) k < of_int (2 ^ 53) * power_int 2 (e - 53)"
        by (intro mult_less_le_imp_less) simp_all
      moreover have "of_int (2 ^ 53) * power_int (2::rat) (e - 53) = power_int 2 (53 + (e - 53))"
        by (subst power_int_add) simp_all
      ultimately show ?thesis by (simp add: y B_def abs_mult)
    qed
    have Bx: "B \<le> \<bar>x\<bar>" using fl_exp_bounds(1) [OF False] by (simp add: B_def e_def)
    show ?thesis
    proof (cases "0 < x")
      case True
      have "\<bar>fl x - x\<bar> \<le> \<bar>B - x\<bar>" using G [of "2 ^ 52"] Bu by simp
      also have "\<dots> \<le> \<bar>y - x\<bar>" using ylt Bx True by linarith
      finally show ?thesis .
    next
      case False
      have "\<bar>fl x - x\<bar> \<le> \<bar>- B - x\<bar>" using G [of "- (2 ^ 52)"] nBu by simp
      also have "\<dots> \<le> \<bar>y - x\<bar>" using ylt Bx False by linarith
      finally show ?thesis .
    qed
  qed
qed

lemma representableI: "\<bar>m\<bar> < 2 ^ 53 \<Longrightarrow> representable (of_int m * power_int 2 k)"
  by (auto simp: representable_def)

lemma representable_of_int: "\<bar>n\<bar> < 2 ^ 53 \<Longrightarrow> representable (of_int n)"
  using representableI [of n 0] by simp

lemma representable_0: "representable 0"
  using representable_of_int [of 0] by simp

lemma fl_ge: "representable a \<Longrightarrow> a \<le> x \<Longrightarrow> a \<le> fl x"
  using fl_nearest [of a x] by linarith

lemma fl_le: "representable b \<Longrightarrow> x \<le> b \<Longrightarrow> fl x \<le> b"
  using fl_nearest [of b x] by linarith

lemma fl_id: "representable x \<Longrightarrow> fl x = x"
  using fl_nearest [of x x] by simp

lemma fl_nonneg: "0 \<le> x \<Longrightarrow> 0 \<le> fl x"
  using fl_ge [OF representable_0] .

lemma fl_pos:
  assumes "0 < x"
  shows "0 < fl x"
proof -
  have "representable (of_int 1 * power_int 2 (fl_exp x))" by (rule representableI) simp
  moreover have "power_int 2 (fl_exp x) \<le> x" using fl_exp_bounds(1) [of x] assms by simp
  ultimately have "power_int 2 (fl_exp x) \<le> fl x" using fl_ge by simp
  moreover have "(0::rat) < power_int 2 (fl_exp x)" by simp
  ultimately show ?thesis by linarith
qed

lemma fl_representable: "representable (fl x)"
proof (cases "x = 0")
  case True
  then show ?thesis by (simp add: fl_def representable_0)
next
  case False
  define e where "e = fl_exp x"
  define u :: rat where "u = power_int 2 (e - 52)"
  define n where "n = rne (x / u)"
  have u: "0 < u" by (simp add: u_def)
  have f: "fl x = of_int n * u" using False by (simp add: fl_def u_def e_def n_def Let_def)
  have "power_int (2::rat) (e + 1) = power_int 2 (53 + (e - 52))"
    by (rule arg_cong [where f = "power_int 2"]) simp
  also have "\<dots> = 2 ^ 53 * u" unfolding u_def by (subst power_int_add) simp_all
  finally have "\<bar>x\<bar> < 2 ^ 53 * u" using fl_exp_bounds(2) [OF False] by (simp add: e_def)
  then have "\<bar>x\<bar> / u < 2 ^ 53" using u by (simp add: pos_divide_less_eq)
  then have "\<bar>x / u\<bar> < 2 ^ 53" using u by simp
  then have "x / u \<le> 2 ^ 53" "- (2 ^ 53) \<le> x / u" by linarith+
  then have b: "x / u \<le> of_int (2 ^ 53)" "of_int (- (2 ^ 53)) \<le> x / u" by simp_all
  have n: "n \<le> 2 ^ 53" "- (2 ^ 53) \<le> n"
    unfolding n_def using rne_le [OF b(1)] rne_ge [OF b(2)] by simp_all
  consider "\<bar>n\<bar> < 2 ^ 53" | "n = 2 ^ 53" | "n = - (2 ^ 53)" using n by linarith
  then show ?thesis
  proof cases
    case 1
    then show ?thesis unfolding f u_def by (rule representableI)
  next
    case 2
    have "power_int (2::rat) (e - 51) = power_int 2 (1 + (e - 52))"
      by (rule arg_cong [where f = "power_int 2"]) simp
    also have "\<dots> = 2 * u" unfolding u_def by (subst power_int_add) simp_all
    finally have "fl x = of_int (2 ^ 52) * power_int 2 (e - 51)" by (simp add: f 2)
    then show ?thesis using representableI [of "2 ^ 52" "e - 51"] by simp
  next
    case 3
    have "power_int (2::rat) (e - 51) = power_int 2 (1 + (e - 52))"
      by (rule arg_cong [where f = "power_int 2"]) simp
    also have "\<dots> = 2 * u" unfolding u_def by (subst power_int_add) simp_all
    finally have "fl x = of_int (- (2 ^ 52)) * power_int 2 (e - 51)" by (simp add: f 3)
    then show ?thesis using representableI [of "- (2 ^ 52)" "e - 51"] by simp
  qed
qed

lemma fl_mono:
  assumes "x \<le> y"
  shows "fl x \<le> fl y"
proof (cases "x = y")
  case True
  then show ?thesis by simp
next
  case False
  have "\<bar>fl x - x\<bar> \<le> \<bar>fl y - x\<bar>" by (rule fl_nearest [OF fl_representable])
  moreover have "\<bar>fl y - y\<bar> \<le> \<bar>fl x - y\<bar>" by (rule fl_nearest [OF fl_representable])
  ultimately show ?thesis using assms False by linarith
qed

subsection \<open>Truncation and the float operations\<close>

lemma py_int_floor: "0 \<le> x \<Longrightarrow> py_int x = \<lfloor>x\<rfloor>"
  by (simp add: py_int_def)

lemma py_int_nonneg: "0 \<le> x \<Longrightarrow> 0 \<le> py_int x"
  by (simp add: py_int_def)

lemma py_int_mono:
  assumes "x \<le> y"
  shows "py_int x \<le> py_int y"
proof (cases "0 \<le> x")
  case True
  then show ?thesis using assms by (simp add: py_int_def floor_mono)
next
  case False
  then have x: "\<lceil>x\<rceil> \<le> 0" by (simp add: ceiling_le_iff)
  show ?thesis
  proof (cases "0 \<le> y")
    case True
    then have "0 \<le> \<lfloor>y\<rfloor>" by simp
    with x have "\<lceil>x\<rceil> \<le> \<lfloor>y\<rfloor>" by linarith
    then show ?thesis using False True by (simp add: py_int_def)
  next
    case F: False
    then show ?thesis using False assms by (simp add: py_int_def ceiling_mono)
  qed
qed

lemma float_of_int_nonneg: "0 \<le> n \<Longrightarrow> 0 \<le> float_of_int n"
  by (simp add: float_of_int_def fl_nonneg)

lemma float_of_int_pos: "0 < n \<Longrightarrow> 0 < float_of_int n"
  by (simp add: float_of_int_def fl_pos)

lemma float_of_int_exact: "\<bar>n\<bar> < 2 ^ 53 \<Longrightarrow> float_of_int n = of_int n"
  by (simp add: float_of_int_def fl_id representable_of_int)

lemma fmul_nonneg: "0 \<le> a \<Longrightarrow> 0 \<le> b \<Longrightarrow> 0 \<le> fmul a b"
  by (simp add: fmul_def fl_nonneg)

lemma fmul_pos: "0 < a \<Longrightarrow> 0 < b \<Longrightarrow> 0 < fmul a b"
  by (simp add: fmul_def fl_pos)

lemma fmul_mono_left: "0 \<le> c \<Longrightarrow> a \<le> b \<Longrightarrow> fmul a c \<le> fmul b c"
  by (simp add: fmul_def fl_mono mult_right_mono)

section \<open>Properties of the converter\<close>

subsection \<open>The glyph index\<close>

lemma char_index_nonneg:
  assumes "charset conv \<noteq> []" and "0 \<le> gray_value g"
  shows "0 \<le> char_index conv g"
proof -
  have "0 \<le> fl (gray_value g / 256)" using assms(2) by (simp add: fl_nonneg)
  then have "0 \<le> fmul (fl (gray_value g / 256)) (float_of_int (int (length (charset conv))))"
    by (simp add: fmul_nonneg float_of_int_nonneg)
  then have "0 \<le> py_int (fmul (fl (gray_value g / 256)) (float_of_int (int (length (charset conv)))))"
    by (rule py_int_nonneg)
  moreover have "0 \<le> int (length (charset conv)) - 1" using assms(1) by (cases "charset conv") simp_all
  ultimately show ?thesis by (simp add: char_index_def Let_def)
qed

lemma char_index_less: "char_index conv g < int (length (charset conv))"
  by (simp add: char_index_def Let_def min_def)

lemma char_index_mono:
  assumes "gray_value g1 \<le> gray_value g2"
  shows "char_index conv g1 \<le> char_index conv g2"
proof -
  let ?n = "float_of_int (int (length (charset conv)))"
  have "fl (gray_value g1 / 256) \<le> fl (gray_value g2 / 256)"
    using assms by (simp add: fl_mono divide_right_mono)
  then have "fmul (fl (gray_value g1 / 256)) ?n \<le> fmul (fl (gray_value g2 / 256)) ?n"
    by (simp add: fmul_mono_left float_of_int_nonneg)
  then have "py_int (fmul (fl (gray_value g1 / 256)) ?n) \<le> py_int (fmul (fl (gray_value g2 / 256)) ?n)"
    by (rule py_int_mono)
  then show ?thesis by (simp add: char_index_def Let_def min_def)
qed

text \<open>
  C8. For a ramp of length at least 1 and luminance values between 0 and 255, the glyph
  index lies between 0 and the length of the ramp (exclusive), and a larger luminance
  never gets a smaller index.
\<close>

theorem char_index_in_range_and_monotone:
  assumes "charset conv \<noteq> []"
    and "0 \<le> gray_value g1" and "gray_value g1 \<le> gray_value g2" and "gray_value g2 \<le> 255"
  shows "0 \<le> char_index conv g1 \<and> char_index conv g1 < int (length (charset conv))
       \<and> 0 \<le> char_index conv g2 \<and> char_index conv g2 < int (length (charset conv))
       \<and> char_index conv g1 \<le> char_index conv g2"
proof -
  have "0 \<le> gray_value g2" using assms(2,3) by simp
  then show ?thesis
    using assms char_index_nonneg [of conv g1] char_index_nonneg [of conv g2]
      char_index_less [of conv g1] char_index_less [of conv g2] char_index_mono [of g1 g2 conv]
    by simp
qed

theorem char_index_in_range_and_monotone_witness:
  "0 \<le> char_index (init_converter None 1) (U8 0)
   \<and> char_index (init_converter None 1) (U8 0) < int (length (charset (init_converter None 1)))
   \<and> 0 \<le> char_index (init_converter None 1) (F64 255)
   \<and> char_index (init_converter None 1) (F64 255) < int (length (charset (init_converter None 1)))
   \<and> char_index (init_converter None 1) (U8 0) \<le> char_index (init_converter None 1) (F64 255)"
  using char_index_in_range_and_monotone [of "init_converter None 1" "U8 0" "F64 255"]
  by (simp add: init_converter_def DEFAULT_CHARSET_def)

subsection \<open>Looking a glyph up\<close>

lemma py_index_in_range:
  "0 \<le> i \<Longrightarrow> i < int (length xs) \<Longrightarrow> py_index xs i = Inr (xs ! nat i)"
  by (simp add: py_index_def)

lemma pixel_to_char_ok:
  assumes "charset conv \<noteq> []" and "0 \<le> gray_value g"
  shows "\<exists>c. pixel_to_char conv g = Inr c \<and> c \<in> set (charset conv)"
proof -
  let ?i = "char_index conv g"
  have i: "0 \<le> ?i" "?i < int (length (charset conv))"
    using char_index_nonneg [OF assms] char_index_less by simp_all
  then have "pixel_to_char conv g = Inr (charset conv ! nat ?i)"
    by (simp add: pixel_to_char_def py_index_in_range)
  moreover have "charset conv ! nat ?i \<in> set (charset conv)"
    using i by (simp add: nat_less_iff)
  ultimately show ?thesis by blast
qed

lemma init_converter_nonempty: "charset (init_converter cs k) \<noteq> []"
  by (simp add: init_converter_def DEFAULT_CHARSET_def split: option.split)

text \<open>
  C10. Constructing the converter with no ramp or with the empty string stores the
  default ramp; the stored ramp is never empty, and looking up the glyph of a luminance
  between 0 and 255 in it never fails.
\<close>

theorem init_converter_default_ramp:
  assumes "0 \<le> gray_value g" and "gray_value g \<le> 255"
  shows "init_converter None k = \<lparr>charset = '' .:-=+*#%@'', contrast = k\<rparr>
       \<and> init_converter (Some []) k = \<lparr>charset = '' .:-=+*#%@'', contrast = k\<rparr>
       \<and> charset (init_converter cs k) \<noteq> []
       \<and> 1 \<le> length (charset (init_converter cs k))
       \<and> (\<exists>c. pixel_to_char (init_converter cs k) g = Inr c
              \<and> c \<in> set (charset (init_converter cs k)))"
proof -
  have n: "charset (init_converter cs k) \<noteq> []" by (rule init_converter_nonempty)
  then have "1 \<le> length (charset (init_converter cs k))"
    by (cases "charset (init_converter cs k)") simp_all
  moreover have "init_converter None k = \<lparr>charset = '' .:-=+*#%@'', contrast = k\<rparr>"
    and "init_converter (Some []) k = \<lparr>charset = '' .:-=+*#%@'', contrast = k\<rparr>"
    by (simp_all add: init_converter_def DEFAULT_CHARSET_def)
  ultimately show ?thesis using n pixel_to_char_ok [OF n assms(1)] by simp
qed

theorem init_converter_default_ramp_witness:
  "init_converter None 1 = \<lparr>charset = '' .:-=+*#%@'', contrast = 1\<rparr>
   \<and> init_converter (Some []) 1 = \<lparr>charset = '' .:-=+*#%@'', contrast = 1\<rparr>
   \<and> charset (init_converter (Some []) 1) \<noteq> []
   \<and> 1 \<le> length (charset (init_converter (Some []) 1))
   \<and> (\<exists>c. pixel_to_char (init_converter (Some []) 1) (U8 255) = Inr c
          \<and> c \<in> set (charset (init_converter (Some []) 1)))"
proof -
  have "0 \<le> gray_value (U8 255)" and "gray_value (U8 255) \<le> 255" by simp_all
  then show ?thesis by (rule init_converter_default_ramp)
qed

subsection \<open>Where the index computation is exact\<close>

lemma representable_dyadic: "\<bar>m\<bar> < 2 ^ 53 \<Longrightarrow> representable (of_int m / 2 ^ j)"
  using representableI [of m "- int j"] by (simp add: power_int_minus field_simps)

lemma char_index_exact:
  assumes "length (charset conv) < 2 ^ 45"
    and "gray_value g = of_int v" and "0 \<le> v" and "v \<le> 255"
  shows "char_index conv g
    = min \<lfloor>(of_int v :: rat) / 256 * of_nat (length (charset conv))\<rfloor>
          (int (length (charset conv)) - 1)"
proof -
  define n where "n = int (length (charset conv))"
  have n: "0 \<le> n" "n < 2 ^ 45" using assms(1) by (simp_all add: n_def)
  have q: "fl (gray_value g / 256) = of_int v / 256"
    using representable_dyadic [of v 8] assms(3,4) by (simp add: assms(2) fl_id)
  have fn: "float_of_int n = of_int n"
    using n by (simp add: float_of_int_exact)
  have "v * n \<le> 255 * n" using assms(4) n(1) by (simp add: mult_right_mono)
  then have vn: "\<bar>v * n\<bar> < 2 ^ 53" using n assms(3) by simp
  have "fmul (of_int v / 256) (of_int n) = fl (of_int (v * n) / 2 ^ 8)"
    by (simp add: fmul_def)
  also have "\<dots> = of_int (v * n) / 2 ^ 8"
    by (rule fl_id [OF representable_dyadic [OF vn]])
  finally have p: "fmul (of_int v / 256) (of_int n) = of_int v / 256 * of_int n" by simp
  have "0 \<le> (of_int v :: rat) / 256 * of_int n" using assms(3) n(1) by simp
  then have "py_int (of_int v / 256 * of_int n) = \<lfloor>(of_int v :: rat) / 256 * of_int n\<rfloor>"
    by (rule py_int_floor)
  then show ?thesis
    by (simp add: char_index_def Let_def q fn p n_def [symmetric]) (simp add: n_def)
qed

lemma gray_value_adjust_1: "gray_value (adjust_contrast 1 p) = of_int (uint p)"
  by (simp add: adjust_contrast_def)

lemma default_index:
  assumes "p = 0 \<or> p = 128 \<or> p = 255"
  shows "char_index (init_converter None 1) (adjust_contrast 1 p)
    = min \<lfloor>(of_int (uint p) :: rat) / 256 * 10\<rfloor> 9"
proof -
  have "uint p \<le> 255" using assms by auto
  then show ?thesis
    using char_index_exact [of "init_converter None 1" "adjust_contrast 1 p" "uint p"]
    by (simp add: gray_value_adjust_1 init_converter_def DEFAULT_CHARSET_def)
qed

lemma default_indices:
  "char_index (init_converter None 1) (adjust_contrast 1 0) = 0"
  "char_index (init_converter None 1) (adjust_contrast 1 128) = 5"
  "char_index (init_converter None 1) (adjust_contrast 1 255) = 9"
proof -
  have "\<lfloor>(255::rat) / 256 * 10\<rfloor> = 9" by (rule floor_unique) simp_all
  then show "char_index (init_converter None 1) (adjust_contrast 1 255) = 9"
    by (simp add: default_index)
qed (simp_all add: default_index)

lemma default_glyphs:
  "pixel_to_char (init_converter None 1) (adjust_contrast 1 0) = Inr (CHR '' '')"
  "pixel_to_char (init_converter None 1) (adjust_contrast 1 255) = Inr (CHR ''@'')"
  "pixel_to_char (init_converter None 1) (adjust_contrast 1 128) = Inr (CHR ''+'')"
  unfolding pixel_to_char_def default_indices
  by (simp_all add: py_index_def init_converter_def DEFAULT_CHARSET_def)

text \<open>
  C9, as stated, fails. With the default ramp and contrast 1.0 the pixel value 128 has
  index 5, and the glyph at index 5 of the ramp is \<open>+\<close>; \<open>*\<close> stands at index 6. And for a
  \<^verbatim>\<open>float64\<close> luminance that is not an integer the index is the truncation of a rounded
  product, which can differ from the floor of the exact one: with the ramp \<^verbatim>\<open>abc\<close> and
  the contrast \<open>- 3002399751580331 / 2 ^ 46\<close> (\<^verbatim>\<open>-42.66666666666667\<close>) the sample 129
  is adjusted to \<open>6004799503160661 / 2 ^ 46\<close>, whose index is 1 while the exact quotient
  lies below 1.
\<close>

theorem glyph_index_counterexample:
  "pixel_to_char (init_converter None 1) (adjust_contrast 1 128) \<noteq> Inr (CHR ''*'')
   \<and> adjust_contrast (- 3002399751580331 / 2 ^ 46) 129 = F64 (6004799503160661 / 2 ^ 46)
   \<and> char_index (init_converter (Some ''abc'') (- 3002399751580331 / 2 ^ 46))
         (F64 (6004799503160661 / 2 ^ 46))
       \<noteq> min \<lfloor>(6004799503160661 / 2 ^ 46 :: rat) / 256 * 3\<rfloor> (3 - 1)"
proof -
  have "adjust_contrast (- 3002399751580331 / 2 ^ 46) 129 = F64 (6004799503160661 / 2 ^ 46)"
    by code_simp
  moreover have "char_index (init_converter (Some ''abc'') (- 3002399751580331 / 2 ^ 46))
      (F64 (6004799503160661 / 2 ^ 46)) = 1"
    by code_simp
  moreover have "\<lfloor>(6004799503160661 / 2 ^ 46 :: rat) / 256 * 3\<rfloor> = 0"
    by (rule floor_unique) simp_all
  ultimately show ?thesis by (simp add: default_glyphs)
qed

text \<open>
  C9, amended. For a ramp of length \<open>N\<close> with \<open>1 \<le> N < 2 ^ 45\<close> and an integer luminance
  \<open>v\<close> between 0 and 255 (every \<^verbatim>\<open>uint8\<close> sample is one) the glyph index is
  \<open>min (floor (v / 256 * N)) (N - 1)\<close>, the binary64 computation being exact there. With
  the default ramp and contrast 1.0, pixel value 0 maps to the blank, 255 to \<open>@\<close>, and 128
  to index 5, which is the glyph \<open>+\<close>.
\<close>

theorem char_index_formula_on_samples:
  assumes "1 \<le> length (charset conv)" and "length (charset conv) < 2 ^ 45"
    and "gray_value g = of_int v" and "0 \<le> v" and "v \<le> 255"
  shows "char_index conv g
      = min \<lfloor>(of_int v :: rat) / 256 * of_nat (length (charset conv))\<rfloor>
            (int (length (charset conv)) - 1)
    \<and> pixel_to_char (init_converter None 1) (adjust_contrast 1 0) = Inr (CHR '' '')
    \<and> pixel_to_char (init_converter None 1) (adjust_contrast 1 255) = Inr (CHR ''@'')
    \<and> char_index (init_converter None 1) (adjust_contrast 1 128) = 5
    \<and> pixel_to_char (init_converter None 1) (adjust_contrast 1 128) = Inr (CHR ''+'')"
  using char_index_exact [OF assms(2-5)] by (simp add: default_glyphs default_indices)

theorem char_index_formula_on_samples_witness:
  "char_index (init_converter (Some ''abc'') 1) (U8 200) = 2
   \<and> pixel_to_char (init_converter None 1) (adjust_contrast 1 128) = Inr (CHR ''+'')"
proof -
  have "\<lfloor>(200::rat) / 256 * 3\<rfloor> = 2" by (rule floor_unique) simp_all
  then show ?thesis
    using char_index_formula_on_samples [of "init_converter (Some ''abc'') 1" "U8 200" 200]
    by (simp add: init_converter_def)
qed

text \<open>
  C1 fails on the code. \<^verbatim>\<open>pixels - 128\<close> is computed in \<^verbatim>\<open>uint8\<close>: for the sample 0 it
  is 128 and not -128, so with contrast 2.0 the sample becomes \<open>128 * 2 + 128 = 384\<close>,
  clipped to 255, and the darkest pixel is drawn with the brightest glyph. The formula of
  the claim gives 0 there.
\<close>

theorem contrast_wraps_below_midpoint:
  "adjust_contrast 2 0 = F64 255
   \<and> np_clip ((0 - 128) * 2 + 128) 0 255 = 0
   \<and> pixel_to_char (init_converter None 2) (adjust_contrast 2 0) = Inr (CHR ''@'')"
proof -
  have "adjust_contrast 2 0 = F64 255" by code_simp
  moreover have "pixel_to_char (init_converter None 2) (F64 255) = Inr (CHR ''@'')" by code_simp
  ultimately show ?thesis by (simp add: np_clip_def)
qed

subsection \<open>The height of the grid and the conversion of a frame\<close>

lemma lit_0_5_half: "lit_0_5 = 1 / 2"
  using representableI [of 1 "- 1"] by (simp add: lit_0_5_def fl_id)

lemma target_height_floor:
  assumes "w \<noteq> 0" and "0 \<le> width" and "w < 2 ^ 32" and "h < 2 ^ 32" and "width < 2 ^ 32"
  shows "target_height width w h
    = Inr \<lfloor>fmul (fmul (float_of_int width) (fl (of_nat h / of_nat w))) (1 / 2)\<rfloor>"
proof -
  have "0 \<le> fl ((of_nat h :: rat) / of_nat w)" by (simp add: fl_nonneg)
  then have "0 \<le> fmul (fmul (float_of_int width) (fl (of_nat h / of_nat w))) (1 / 2)"
    using assms(2) by (simp add: fmul_nonneg float_of_int_nonneg)
  then show ?thesis
    using assms(1) by (simp add: target_height_def int_truediv_def lit_0_5_half py_int_floor)
qed

lemma target_height_example: "target_height 70 1920 1080 = Inr 19"
  by code_simp

text \<open>
  C3, as stated, fails: the height is truncated, not rounded. For a 1920 by 1080 image
  and width 70 the code yields 19 rows, where rounding 19.6875 would give 20.
\<close>

theorem target_height_counterexample:
  "target_height 70 1920 1080 = Inr 19
   \<and> round (70 * (1080 / 1920) * (1 / 2) :: rat) = 20"
proof -
  have "round (70 * (1080 / 1920) * (1 / 2) :: rat) = 20"
    unfolding round_def by (rule floor_unique) simp_all
  then show ?thesis by (simp add: target_height_example)
qed

text \<open>
  C3, amended. For an image of a width above 0 and a target width of at least 1, all
  sizes below \<open>2 ^ 32\<close>, the height of the grid is
  \<^verbatim>\<open>int(width * (img.height / img.width) * 0.5)\<close>: the binary64 product truncated (it
  is not negative, so this is its floor), never rounded up. For a 1920 by 1080 image and
  width 70 it is 19.
\<close>

theorem target_height_truncates:
  assumes "0 < w" and "w < 2 ^ 32" and "h < 2 ^ 32" and "1 \<le> width" and "width < 2 ^ 32"
  shows "target_height width w h
      = Inr \<lfloor>fmul (fmul (float_of_int width) (fl (of_nat h / of_nat w))) (1 / 2)\<rfloor>
    \<and> target_height 70 1920 1080 = Inr 19"
  using assms target_height_floor [of w width h] by (simp add: target_height_example)

theorem target_height_truncates_witness:
  "target_height 70 1920 1080
     = Inr \<lfloor>fmul (fmul (float_of_int 70) (fl (of_nat 1080 / of_nat 1920))) (1 / 2)\<rfloor>
   \<and> target_height 70 1920 1080 = Inr 19"
proof -
  have "(0::nat) < 1920" and "(1920::nat) < 2 ^ 32" and "(1080::nat) < 2 ^ 32"
    and "(1::int) \<le> 70" and "(70::int) < 2 ^ 32"
    by simp_all
  then show ?thesis by (rule target_height_truncates)
qed

text \<open>
  C4 fails on the code. A well-formed image and a target width of at least 1 do not
  make the conversion return a frame: a 100 by 100 image at target width 1 has the grid
  height \<open>int (1 * 1.0 * 0.5) = 0\<close>, the converter hands the size 1 by 0 to the resampler
  without a check, and the resampler raises. \<^verbatim>\<open>calculate_frame_size\<close> guards the same
  computation with a minimum height; the converter does not.
\<close>

theorem convert_frame_raises_on_flat_grid:
  "target_height 1 100 100 = Inr 0
   \<and> convert_frame (init_converter None 1) (uniform_image 100 100 0) 1 = Inl ValueError"
proof -
  have "target_height 1 100 100 = Inr 0" by code_simp
  then show ?thesis
    by (simp add: convert_frame_def resize_gray_def uniform_image_def)
qed

section \<open>Properties of the player\<close>

subsection \<open>Sampling the terminal size\<close>

lemma update_terminal_size_direct_ok:
  "update_terminal_size p \<lparr>shutil_size = Returns (c, l), stty_words = s, tput_words = t\<rparr>
    = Inr (case read_size s of
             Some (h, w) \<Rightarrow> \<lparr>terminal_width = w, terminal_height = h\<rparr>
           | None \<Rightarrow>
               (case read_size t of
                  Some (h, w) \<Rightarrow> \<lparr>terminal_width = w, terminal_height = h\<rparr>
                | None \<Rightarrow> \<lparr>terminal_width = c, terminal_height = l\<rparr>))"
  by (simp add: update_terminal_size_def get_size_def split: option.split)

lemma update_terminal_size_direct_fails:
  assumes "e = OSError \<or> e = AttributeError"
  shows "update_terminal_size p \<lparr>shutil_size = Raises e, stty_words = s, tput_words = t\<rparr>
    = Inr (case read_size s of
             Some (h, w) \<Rightarrow> \<lparr>terminal_width = w, terminal_height = h\<rparr>
           | None \<Rightarrow>
               (case read_size t of
                  Some (h, w) \<Rightarrow> \<lparr>terminal_width = w, terminal_height = h\<rparr>
                | None \<Rightarrow> p))"
  using assms by (cases p) (auto simp: update_terminal_size_def get_size_def split: option.split)

lemma update_terminal_size_idem:
  assumes "update_terminal_size p env = Inr p1"
  shows "update_terminal_size p1 env = Inr p1"
  using assms
  by (cases p; cases p1)
     (auto simp: update_terminal_size_def split: outcome.splits option.splits if_splits prod.splits)

text \<open>
  C6, as stated, fails: the direct query succeeds with 120 columns and 40 rows, and the
  result is what \<^verbatim>\<open>stty size\<close> printed.
\<close>

theorem update_terminal_size_counterexample:
  "update_terminal_size \<lparr>terminal_width = 80, terminal_height = 24\<rparr>
     \<lparr>shutil_size = Returns (120, 40), stty_words = Returns [Some 50, Some 132],
      tput_words = Raises OSError\<rparr>
   = Inr \<lparr>terminal_width = 132, terminal_height = 50\<rparr>"
  by (simp add: update_terminal_size_def get_size_def read_size_def)

text \<open>
  C6, amended. Every sample runs the direct query first and then, whatever it gave, the
  external commands: \<^verbatim>\<open>stty size\<close>, and \<^verbatim>\<open>tput\<close> when that yields no two integers. The
  last source that succeeds determines the result: an external result of rows and
  columns overrides the direct one, which counts only when both commands fail. When the
  direct query raises \<^verbatim>\<open>OSError\<close> and both commands fail, the size stays what it was:
  80 by 24 in a new player.
\<close>

theorem update_terminal_size_layers:
  "update_terminal_size p \<lparr>shutil_size = Returns (c, l), stty_words = s, tput_words = t\<rparr>
     = Inr (case read_size s of
              Some (h, w) \<Rightarrow> \<lparr>terminal_width = w, terminal_height = h\<rparr>
            | None \<Rightarrow>
                (case read_size t of
                   Some (h, w) \<Rightarrow> \<lparr>terminal_width = w, terminal_height = h\<rparr>
                 | None \<Rightarrow> \<lparr>terminal_width = c, terminal_height = l\<rparr>))
   \<and> update_terminal_size p \<lparr>shutil_size = Raises OSError, stty_words = s, tput_words = t\<rparr>
     = Inr (case read_size s of
              Some (h, w) \<Rightarrow> \<lparr>terminal_width = w, terminal_height = h\<rparr>
            | None \<Rightarrow>
                (case read_size t of
                   Some (h, w) \<Rightarrow> \<lparr>terminal_width = w, terminal_height = h\<rparr>
                 | None \<Rightarrow> p))
   \<and> init_player \<lparr>shutil_size = Raises OSError, stty_words = Raises OSError,
        tput_words = Raises OSError\<rparr>
     = Inr \<lparr>terminal_width = 80, terminal_height = 24\<rparr>"
  by (simp add: update_terminal_size_direct_ok update_terminal_size_direct_fails init_player_def
      read_size_def)

subsection \<open>The negotiated frame size\<close>

lemma lit_0_9_value: "lit_0_9 = 8106479329266893 / 2 ^ 53"
  by code_simp

lemma floor_between:
  assumes "of_int k \<le> x" and "x \<le> of_int k + 15 / 16" and "0 \<le> k" and "k < 2 ^ 48"
  shows "\<lfloor>fl x\<rfloor> = k"
proof -
  have "representable (of_int k)" using assms(3,4) by (intro representable_of_int) simp
  then have lo: "of_int k \<le> fl x" using assms(1) by (rule fl_ge)
  have "\<bar>16 * k + 15\<bar> < 2 ^ 53" using assms(3,4) by simp
  then have "representable (of_int (16 * k + 15) / 2 ^ 4)" by (rule representable_dyadic)
  moreover have "x \<le> of_int (16 * k + 15) / 2 ^ 4" using assms(2) by simp
  ultimately have "fl x \<le> of_int (16 * k + 15) / 2 ^ 4" by (rule fl_le)
  then have hi: "fl x < of_int k + 1" by simp
  show ?thesis using lo hi by (simp add: floor_unique)
qed

lemma max_height_exact:
  assumes "0 \<le> th" and "th < 2 ^ 32"
  shows "py_int (fmul (float_of_int th) lit_0_9) = \<lfloor>(9 / 10 :: rat) * of_int th\<rfloor>"
proof -
  define k where "k = (9 * th) div 10"
  define r where "r = (9 * th) mod 10"
  have kr: "9 * th = 10 * k + r" "0 \<le> r" "r \<le> 9" by (simp_all add: k_def r_def)
  have k: "0 \<le> k" "k < 2 ^ 48" using assms by (simp_all add: k_def)
  define x :: rat where "x = of_int th * lit_0_9"
  have "10 * x = of_int (9 * th) + of_int th / 2 ^ 52"
    by (simp add: x_def lit_0_9_value field_simps)
  then have x10: "10 * x = 10 * of_int k + of_int r + of_int th / 2 ^ 52"
    by (simp add: kr(1))
  have t0: "(0::rat) \<le> of_int th / 2 ^ 52" using assms(1) by simp
  have "(of_int th :: rat) \<le> 2 ^ 32" using assms(2) by (metis less_imp_le of_int_le_iff of_int_numeral of_int_power)
  then have t1: "(of_int th :: rat) / 2 ^ 52 \<le> 2 ^ 32 / 2 ^ 52" by (simp add: divide_right_mono)
  have r0: "(0::rat) \<le> of_int r" "(of_int r :: rat) \<le> 9" using kr(2,3) by simp_all
  have "of_int k \<le> x" using x10 t0 r0 by linarith
  moreover have "x \<le> of_int k + 15 / 16" using x10 t1 r0 by simp
  ultimately have f: "\<lfloor>fl x\<rfloor> = k" using k by (rule floor_between)
  have "float_of_int th = of_int th" using assms by (simp add: float_of_int_exact)
  moreover have "0 \<le> fl x" using assms(1) by (simp add: x_def lit_0_9_value fl_nonneg)
  ultimately have "py_int (fmul (float_of_int th) lit_0_9) = k"
    using f by (simp add: fmul_def x_def py_int_floor)
  moreover have "\<lfloor>(9 / 10 :: rat) * of_int th\<rfloor> = k"
  proof -
    have "(9 / 10 :: rat) * of_int th = of_int (9 * th) / of_int 10" by simp
    then show ?thesis unfolding k_def by (simp only: floor_divide_of_int_eq)
  qed
  ultimately show ?thesis by simp
qed

lemma frame_size_bounds:
  assumes "0 < video_width" and "0 < video_height" and "0 \<le> th" and "th < 2 ^ 32"
    and "0 \<le> tw" and "tw < 2 ^ 32" and "video_width < 2 ^ 32" and "video_height < 2 ^ 32"
  shows "\<exists>w h. frame_size tw th video_width video_height = Inr (w, h)
    \<and> 20 \<le> w \<and> 10 \<le> h \<and> h \<le> max 10 \<lfloor>(9 / 10 :: rat) * of_int th\<rfloor>"
proof -
  define a where "a = fl (of_int video_height / of_int video_width :: rat)"
  have a: "int_truediv video_height video_width = Inr a"
    using assms(1) by (simp add: int_truediv_def a_def)
  have "0 < a" unfolding a_def using assms(1,2) by (intro fl_pos) simp
  then have d: "fmul a lit_0_5 \<noteq> 0"
    using fmul_pos [of a lit_0_5] by (simp add: lit_0_5_half)
  define width where "width = py_int (fmul (float_of_int tw) lit_0_7)"
  define height where "height = py_int (fmul (fmul (float_of_int width) a) lit_0_5)"
  define max_height where "max_height = py_int (fmul (float_of_int th) lit_0_9)"
  have m: "max_height = \<lfloor>(9 / 10 :: rat) * of_int th\<rfloor>"
    unfolding max_height_def using assms(3,4) by (rule max_height_exact)
  have fs: "frame_size tw th video_width video_height =
      (if height > max_height
       then Inr (max (py_int (fl (float_of_int max_height / fmul a lit_0_5))) 20, max max_height 10)
       else Inr (max width 20, max height 10))"
    using d by (simp add: frame_size_def a Let_def fdiv_def width_def height_def max_height_def)
  show ?thesis
  proof (cases "height > max_height")
    case True
    then show ?thesis unfolding fs using m by simp
  next
    case False
    then show ?thesis unfolding fs using m by simp
  qed
qed

text \<open>
  C2, as stated, fails: on a terminal of 10 rows the height is 10, above
  \<open>floor (0.9 * 10) = 9\<close>, because the minimum of 10 rows is applied last.
\<close>

theorem calculate_frame_size_counterexample:
  "calculate_frame_size \<lparr>terminal_width = 80, terminal_height = 24\<rparr> (terminal_of 80 10) 1920 1080
     = Inr (\<lparr>terminal_width = 80, terminal_height = 10\<rparr>, 32, 10)
   \<and> \<not> (10 :: int) \<le> \<lfloor>(9 / 10 :: rat) * 10\<rfloor>"
proof -
  have "frame_size 80 10 1920 1080 = Inr (32, 10)" by code_simp
  then show ?thesis
    by (simp add: calculate_frame_size_def terminal_of_def update_terminal_size_direct_ok
        read_size_def)
qed

text \<open>
  C2, amended. When the sampled terminal has more than 0 columns and more than 0 rows,
  the source width and height are above 0, and all four are below \<open>2 ^ 32\<close>,
  \<^verbatim>\<open>calculate_frame_size\<close> returns a pair, returns the same pair when it is called again
  with the terminal unchanged, and the pair has a width of at least 20 and a height of
  at least 10 and at most \<open>max 10 (floor (0.9 * rows))\<close>: the minimum of 10 rows wins over
  the ceiling of 90 percent of the rows.
\<close>

theorem calculate_frame_size_bounds:
  assumes u: "update_terminal_size p env = Inr p1"
    and columns: "0 < terminal_width p1" "terminal_width p1 < 2 ^ 32"
    and rows: "0 < terminal_height p1" "terminal_height p1 < 2 ^ 32"
    and vw: "0 < video_width" "video_width < 2 ^ 32"
    and vh: "0 < video_height" "video_height < 2 ^ 32"
  shows "\<exists>w h. calculate_frame_size p env video_width video_height = Inr (p1, w, h)
    \<and> calculate_frame_size p1 env video_width video_height = Inr (p1, w, h)
    \<and> 20 \<le> w \<and> 10 \<le> h
    \<and> h \<le> max 10 \<lfloor>(9 / 10 :: rat) * of_int (terminal_height p1)\<rfloor>"
proof -
  have "0 \<le> terminal_height p1" and "0 \<le> terminal_width p1"
    using rows(1) columns(1) by simp_all
  from frame_size_bounds [OF vw(1) vh(1) this(1) rows(2) this(2) columns(2) vw(2) vh(2)]
  obtain w h where
    "frame_size (terminal_width p1) (terminal_height p1) video_width video_height = Inr (w, h)"
    and "20 \<le> w \<and> 10 \<le> h
      \<and> h \<le> max 10 \<lfloor>(9 / 10 :: rat) * of_int (terminal_height p1)\<rfloor>"
    by blast
  then show ?thesis
    using u update_terminal_size_idem [OF u]
    by (simp add: calculate_frame_size_def)
qed

theorem calculate_frame_size_bounds_witness:
  "\<exists>w h. calculate_frame_size \<lparr>terminal_width = 80, terminal_height = 24\<rparr>
            (terminal_of 100 30) 1920 1080
          = Inr (\<lparr>terminal_width = 100, terminal_height = 30\<rparr>, w, h)
    \<and> calculate_frame_size \<lparr>terminal_width = 100, terminal_height = 30\<rparr>
            (terminal_of 100 30) 1920 1080
          = Inr (\<lparr>terminal_width = 100, terminal_height = 30\<rparr>, w, h)
    \<and> 20 \<le> w \<and> 10 \<le> h \<and> h \<le> 27"
proof -
  have u: "update_terminal_size \<lparr>terminal_width = 80, terminal_height = 24\<rparr> (terminal_of 100 30)
      = Inr \<lparr>terminal_width = 100, terminal_height = 30\<rparr>"
    by (simp add: terminal_of_def update_terminal_size_direct_ok read_size_def)
  have "\<lfloor>(9 / 10 :: rat) * 30\<rfloor> = 27" by simp
  then show ?thesis
    using calculate_frame_size_bounds [OF u, of 1920 1080] by simp
qed

subsection \<open>Playing\<close>

text \<open>
  C5 fails on the code. \<^verbatim>\<open>play\<close> computes \<open>max_lines\<close> once, before the loop, and hands
  it to every \<^verbatim>\<open>render_frame\<close>, which samples the terminal again but clips to the bound
  it was given. Two frames of 5 lines on a terminal of 4 rows that has shrunk to 2 rows
  when the second frame is drawn: the second frame is shown with 3 lines, not with at
  most \<open>2 - 1 = 1\<close>. The same \<^verbatim>\<open>render_frame\<close> called without a bound clips the frame to
  1 line.
\<close>

theorem play_clips_to_stale_rows:
  "play \<lparr>terminal_width = 80, terminal_height = 24\<rparr>
     [join_nl [''ab'', ''cd'', ''ef'', ''gh'', ''ij''],
      join_nl [''kl'', ''mn'', ''op'', ''qr'', ''st'']]
     False (terminal_of 80 4)
     [quiet_pass (terminal_of 80 4), quiet_pass (terminal_of 80 2)]
   = Some (Finished, [[''ab'', ''cd'', ''ef''], [''kl'', ''mn'', ''op'']])
   \<and> render_frame \<lparr>terminal_width = 80, terminal_height = 4\<rparr>
       (join_nl [''kl'', ''mn'', ''op'', ''qr'', ''st'']) None
       (quiet_pass (terminal_of 80 2))
     = Inr (\<lparr>terminal_width = 80, terminal_height = 2\<rparr>, [''kl''])"
  by code_simp

text \<open>
  C7 fails on the code. An interrupt that arrives while \<^verbatim>\<open>popen('stty size').read()\<close>
  runs, inside the size probe of \<^verbatim>\<open>render_frame\<close>, is caught by the bare \<^verbatim>\<open>except\<close> of
  \<^verbatim>\<open>get_size\<close>: with three frames and the interrupt in the second pass, all three frames
  are drawn and \<^verbatim>\<open>play\<close> ends as if nothing had happened. An interrupt during the direct
  query of line 171, before the \<^verbatim>\<open>try\<close>, leaves \<^verbatim>\<open>play\<close> as an exception. An interrupt
  during the sleep of the second pass is absorbed as the claim says: two frames drawn,
  a normal return.
\<close>

theorem play_interrupt_in_probe:
  "play \<lparr>terminal_width = 80, terminal_height = 24\<rparr> [''a'', ''b'', ''c''] False
     (terminal_of 80 24)
     [quiet_pass (terminal_of 80 24),
      quiet_pass \<lparr>shutil_size = Returns (80, 24), stty_words = Raises KeyboardInterrupt,
                   tput_words = Raises OSError\<rparr>,
      quiet_pass (terminal_of 80 24)]
   = Some (Finished, [[''a''], [''b''], [''c'']])
   \<and> play \<lparr>terminal_width = 80, terminal_height = 24\<rparr> [''a'', ''b'', ''c''] False
       \<lparr>shutil_size = Raises KeyboardInterrupt, stty_words = Raises OSError,
          tput_words = Raises OSError\<rparr>
       [quiet_pass (terminal_of 80 24), quiet_pass (terminal_of 80 24),
        quiet_pass (terminal_of 80 24)]
     = Some (Propagated KeyboardInterrupt, [])
   \<and> play \<lparr>terminal_width = 80, terminal_height = 24\<rparr> [''a'', ''b'', ''c''] False
       (terminal_of 80 24)
       [quiet_pass (terminal_of 80 24),
        \<lparr>size_probe = terminal_of 80 24, stdout_result = Returns (),
           sleep_result = Raises KeyboardInterrupt\<rparr>,
        quiet_pass (terminal_of 80 24)]
     = Some (Stopped_by_user, [[''a''], [''b'']])"
  by code_simp

end
